theory Spec2Isabelle
  imports Main
begin

section \<open>The rule catalogue and rule selection of gosec (rules/rulelist.go)\<close>

subsection \<open>Data model\<close>

text \<open>
  \<^verbatim>\<open>gosec.RuleBuilder\<close> is a function type of the importing package, and the
  builders named in the catalogue are declared in the other files of package
  \<^verbatim>\<open>rules\<close>. The code of \<^verbatim>\<open>rulelist.go\<close> never calls a builder: it only stores
  and copies the reference. A builder is therefore represented by the name of the
  function the catalogue refers to.
\<close>

datatype RuleBuilder =
    NewHardcodedCredentials
  | NewBindsToAllNetworkInterfaces
  | NewUsingUnsafe
  | NewNoErrorCheck
  | NewSSHHostKey
  | NewSSRFCheck
  | NewPprofCheck
  | NewIntegerOverflowCheck
  | NewDecompressionBombCheck
  | NewDirectoryTraversal
  | NewSlowloris
  | NewHTTPServeWithoutTimeouts
  | NewSQLStrFormat
  | NewSQLStrConcat
  | NewTemplateCheck
  | NewSubproc
  | NewMkdirPerms
  | NewFilePerms
  | NewBadTempFile
  | NewReadFile
  | NewArchive
  | NewWritePerms
  | NewOsCreatePerms
  | NewUsesWeakCryptographyHash
  | NewIntermediateTLSCheck
  | NewWeakKeyStrength
  | NewWeakRandCheck
  | NewUsesWeakCryptographyEncryption
  | NewUsesWeakDeprecatedCryptographyHash
  | NewBlocklistedImportMD5
  | NewBlocklistedImportDES
  | NewBlocklistedImportRC4
  | NewBlocklistedImportCGI
  | NewBlocklistedImportSHA1
  | NewBlocklistedImportMD4
  | NewBlocklistedImportRIPEMD160
  | NewImplicitAliasing

text \<open>\<^verbatim>\<open>type RuleDefinition struct { ID string; Description string; Create gosec.RuleBuilder }\<close>\<close>

record RuleDefinition =
  ID :: string
  Description :: string
  Create :: RuleBuilder

text \<open>
  \<^verbatim>\<open>type RuleList struct { Rules map[string]RuleDefinition; RuleSuppressed map[string]bool }\<close>.
  A Go map is a finite partial function from keys to values.
\<close>

record RuleList =
  Rules :: "string \<rightharpoonup> RuleDefinition"
  RuleSuppressed :: "string \<rightharpoonup> bool"

text \<open>\<^verbatim>\<open>type RuleFilter func(string) bool\<close>\<close>

type_synonym RuleFilter = "string \<Rightarrow> bool"

subsection \<open>NewRuleFilter\<close>

text \<open>
  The variadic \<^verbatim>\<open>ruleIDs\<close> is a slice, here a list. The first loop stores
  \<^verbatim>\<open>true\<close> under every ID; the closure then tests the presence of the key
  (\<^verbatim>\<open>_, found := rulelist[rule]\<close>), not the stored value.
\<close>

definition NewRuleFilter :: "bool \<Rightarrow> string list \<Rightarrow> RuleFilter" where
  "NewRuleFilter action ruleIDs =
     (let rulelist = fold (\<lambda>rule m. m(rule \<mapsto> True)) ruleIDs Map.empty
      in (\<lambda>rule. case rulelist rule of Some _ \<Rightarrow> action | None \<Rightarrow> \<not> action))"

subsection \<open>Generate\<close>

text \<open>The slice literal \<^verbatim>\<open>rules\<close> at the head of \<^verbatim>\<open>Generate\<close>, in source order.\<close>

definition rules :: "RuleDefinition list" where
  "rules = [
     \<lparr>ID = ''G101'', Description = ''Look for hardcoded credentials'', Create = NewHardcodedCredentials\<rparr>,
     \<lparr>ID = ''G102'', Description = ''Bind to all interfaces'', Create = NewBindsToAllNetworkInterfaces\<rparr>,
     \<lparr>ID = ''G103'', Description = ''Audit the use of unsafe block'', Create = NewUsingUnsafe\<rparr>,
     \<lparr>ID = ''G104'', Description = ''Audit errors not checked'', Create = NewNoErrorCheck\<rparr>,
     \<lparr>ID = ''G106'', Description = ''Audit the use of ssh.InsecureIgnoreHostKey function'', Create = NewSSHHostKey\<rparr>,
     \<lparr>ID = ''G107'', Description = ''Url provided to HTTP request as taint input'', Create = NewSSRFCheck\<rparr>,
     \<lparr>ID = ''G108'', Description = ''Profiling endpoint is automatically exposed'', Create = NewPprofCheck\<rparr>,
     \<lparr>ID = ''G109'', Description = ''Converting strconv.Atoi result to int32/int16'', Create = NewIntegerOverflowCheck\<rparr>,
     \<lparr>ID = ''G110'', Description = ''Detect io.Copy instead of io.CopyN when decompression'', Create = NewDecompressionBombCheck\<rparr>,
     \<lparr>ID = ''G111'', Description = ''Detect http.Dir('/') as a potential risk'', Create = NewDirectoryTraversal\<rparr>,
     \<lparr>ID = ''G112'', Description = ''Detect ReadHeaderTimeout not configured as a potential risk'', Create = NewSlowloris\<rparr>,
     \<lparr>ID = ''G114'', Description = ''Use of net/http serve function that has no support for setting timeouts'', Create = NewHTTPServeWithoutTimeouts\<rparr>,
     \<lparr>ID = ''G201'', Description = ''SQL query construction using format string'', Create = NewSQLStrFormat\<rparr>,
     \<lparr>ID = ''G202'', Description = ''SQL query construction using string concatenation'', Create = NewSQLStrConcat\<rparr>,
     \<lparr>ID = ''G203'', Description = ''Use of unescaped data in HTML templates'', Create = NewTemplateCheck\<rparr>,
     \<lparr>ID = ''G204'', Description = ''Audit use of command execution'', Create = NewSubproc\<rparr>,
     \<lparr>ID = ''G301'', Description = ''Poor file permissions used when creating a directory'', Create = NewMkdirPerms\<rparr>,
     \<lparr>ID = ''G302'', Description = ''Poor file permissions used when creation file or using chmod'', Create = NewFilePerms\<rparr>,
     \<lparr>ID = ''G303'', Description = ''Creating tempfile using a predictable path'', Create = NewBadTempFile\<rparr>,
     \<lparr>ID = ''G304'', Description = ''File path provided as taint input'', Create = NewReadFile\<rparr>,
     \<lparr>ID = ''G305'', Description = ''File path traversal when extracting zip archive'', Create = NewArchive\<rparr>,
     \<lparr>ID = ''G306'', Description = ''Poor file permissions used when writing to a file'', Create = NewWritePerms\<rparr>,
     \<lparr>ID = ''G307'', Description = ''Poor file permissions used when creating a file with os.Create'', Create = NewOsCreatePerms\<rparr>,
     \<lparr>ID = ''G401'', Description = ''Detect the usage of MD5 or SHA1'', Create = NewUsesWeakCryptographyHash\<rparr>,
     \<lparr>ID = ''G402'', Description = ''Look for bad TLS connection settings'', Create = NewIntermediateTLSCheck\<rparr>,
     \<lparr>ID = ''G403'', Description = ''Ensure minimum RSA key length of 2048 bits'', Create = NewWeakKeyStrength\<rparr>,
     \<lparr>ID = ''G404'', Description = ''Insecure random number source (rand)'', Create = NewWeakRandCheck\<rparr>,
     \<lparr>ID = ''G405'', Description = ''Detect the usage of DES or RC4'', Create = NewUsesWeakCryptographyEncryption\<rparr>,
     \<lparr>ID = ''G406'', Description = ''Detect the usage of deprecated MD4 or RIPEMD160'', Create = NewUsesWeakDeprecatedCryptographyHash\<rparr>,
     \<lparr>ID = ''G501'', Description = ''Import blocklist: crypto/md5'', Create = NewBlocklistedImportMD5\<rparr>,
     \<lparr>ID = ''G502'', Description = ''Import blocklist: crypto/des'', Create = NewBlocklistedImportDES\<rparr>,
     \<lparr>ID = ''G503'', Description = ''Import blocklist: crypto/rc4'', Create = NewBlocklistedImportRC4\<rparr>,
     \<lparr>ID = ''G504'', Description = ''Import blocklist: net/http/cgi'', Create = NewBlocklistedImportCGI\<rparr>,
     \<lparr>ID = ''G505'', Description = ''Import blocklist: crypto/sha1'', Create = NewBlocklistedImportSHA1\<rparr>,
     \<lparr>ID = ''G506'', Description = ''Import blocklist: golang.org/x/crypto/md4'', Create = NewBlocklistedImportMD4\<rparr>,
     \<lparr>ID = ''G507'', Description = ''Import blocklist: golang.org/x/crypto/ripemd160'', Create = NewBlocklistedImportRIPEMD160\<rparr>,
     \<lparr>ID = ''G601'', Description = ''Implicit memory aliasing in RangeStmt'', Create = NewImplicitAliasing\<rparr>
   ]"

text \<open>
  The inner loop \<^verbatim>\<open>for _, filter := range filters\<close> for the rule with the given ID.
  It returns the suppression map and a flag: \<open>True\<close> when the loop ran to its end,
  \<open>False\<close> when it was left through \<^verbatim>\<open>continue RULES\<close>.
\<close>

fun apply_filters ::
  "bool \<Rightarrow> string \<Rightarrow> RuleFilter list \<Rightarrow> (string \<rightharpoonup> bool) \<Rightarrow> (string \<rightharpoonup> bool) \<times> bool" where
  "apply_filters trackSuppressions rid [] ruleSuppressedMap = (ruleSuppressedMap, True)"
| "apply_filters trackSuppressions rid (filter' # filters) ruleSuppressedMap =
     (if filter' rid then
        (let ruleSuppressedMap' = ruleSuppressedMap(rid \<mapsto> True) in
         if \<not> trackSuppressions then (ruleSuppressedMap', False)
         else apply_filters trackSuppressions rid filters ruleSuppressedMap')
      else apply_filters trackSuppressions rid filters ruleSuppressedMap)"

text \<open>
  One pass of the outer loop \<^verbatim>\<open>for _, rule := range rules\<close> on the pair
  \<open>(ruleMap, ruleSuppressedMap)\<close>: the rule is stored in \<open>ruleMap\<close> only when the
  inner loop was not left early.
\<close>

definition rule_step ::
  "bool \<Rightarrow> RuleFilter list \<Rightarrow> RuleDefinition \<Rightarrow>
   (string \<rightharpoonup> RuleDefinition) \<times> (string \<rightharpoonup> bool) \<Rightarrow>
   (string \<rightharpoonup> RuleDefinition) \<times> (string \<rightharpoonup> bool)" where
  "rule_step trackSuppressions filters rule st =
     (case st of (ruleMap, ruleSuppressedMap) \<Rightarrow>
        (case apply_filters trackSuppressions (ID rule) filters (ruleSuppressedMap(ID rule \<mapsto> False)) of
           (ruleSuppressedMap', completed) \<Rightarrow>
             if completed then (ruleMap(ID rule \<mapsto> rule), ruleSuppressedMap')
             else (ruleMap, ruleSuppressedMap')))"

text \<open>
  \<^verbatim>\<open>Generate\<close>: both maps start empty, the outer loop runs over the catalogue in
  order, and the two maps are returned as a \<^verbatim>\<open>RuleList\<close>. A filter is a total
  predicate without side effects, as every filter built by \<^verbatim>\<open>NewRuleFilter\<close> is.
\<close>

definition Generate :: "bool \<Rightarrow> RuleFilter list \<Rightarrow> RuleList" where
  "Generate trackSuppressions filters =
     (case fold (rule_step trackSuppressions filters) rules (Map.empty, Map.empty) of
        (ruleMap, ruleSuppressedMap) \<Rightarrow>
          \<lparr>Rules = ruleMap, RuleSuppressed = ruleSuppressedMap\<rparr>)"

subsection \<open>RulesInfo\<close>

text \<open>
  Go leaves the order in which \<^verbatim>\<open>range\<close> visits the entries of a map unspecified;
  it visits every key once. The order taken is the parameter \<open>ks\<close>, an enumeration of
  the keys of \<^verbatim>\<open>rl.Rules\<close>.
\<close>

definition range_order :: "'k list \<Rightarrow> ('k \<rightharpoonup> 'v) \<Rightarrow> bool" where
  "range_order ks m = (distinct ks \<and> set ks = dom m)"

definition RulesInfo ::
  "string list \<Rightarrow> RuleList \<Rightarrow> (string \<rightharpoonup> RuleBuilder) \<times> (string \<rightharpoonup> bool)" where
  "RulesInfo ks rl =
     (fold (\<lambda>k builders. case Rules rl k of
                            Some def \<Rightarrow> builders(ID def \<mapsto> Create def)
                          | None \<Rightarrow> builders) ks Map.empty,
      RuleSuppressed rl)"

subsection \<open>Vocabulary for the properties\<close>

text \<open>
  The IDs of the catalogue in source order, and the entry the catalogue holds for an
  ID (the first one with that ID; the IDs turn out to be pairwise distinct).
\<close>

definition catalog_ids :: "string list" where
  "catalog_ids = map ID rules"

definition catalog_entry :: "string \<Rightarrow> RuleDefinition option" where
  "catalog_entry k = find (\<lambda>r. ID r = k) rules"

section \<open>Properties\<close>

subsection \<open>The filter predicate\<close>

lemma rulelist_fold_lookup:
  "fold (\<lambda>rule m. m(rule \<mapsto> True)) ruleIDs m0 x =
     (if x \<in> set ruleIDs then Some True else m0 x)"
  by (induction ruleIDs arbitrary: m0) auto

lemma NewRuleFilter_apply:
  "NewRuleFilter action ruleIDs x = (if x \<in> set ruleIDs then action else \<not> action)"
  by (simp add: NewRuleFilter_def rulelist_fold_lookup)

text \<open>
  Claim C2. The predicate built by \<open>NewRuleFilter a ids\<close> returns \<open>a\<close> on every member
  of \<open>ids\<close> and the negation of \<open>a\<close> on every other string: with \<open>a = True\<close> it
  is true exactly on the members, with \<open>a = False\<close> exactly on the non-members. Its
  value is a function of \<open>a\<close> and of the set of \<open>ids\<close> alone.
\<close>

theorem NewRuleFilter_semantics:
  "NewRuleFilter a ids x = (if x \<in> set ids then a else \<not> a)
   \<and> (NewRuleFilter True ids x \<longleftrightarrow> x \<in> set ids)
   \<and> (NewRuleFilter False ids x \<longleftrightarrow> x \<notin> set ids)
   \<and> (set ids = set ids' \<longrightarrow> NewRuleFilter a ids = NewRuleFilter a ids')"
  by (auto simp: NewRuleFilter_apply fun_eq_iff)

theorem NewRuleFilter_semantics_witness:
  "NewRuleFilter True [''G101'', ''G204''] ''G204'' = True
   \<and> NewRuleFilter True [''G101'', ''G204''] ''G301'' = False
   \<and> NewRuleFilter False [''G101'', ''G204''] ''G204'' = False
   \<and> NewRuleFilter False [''G101'', ''G204''] ''G301'' = True
   \<and> set [''G101'', ''G204''] = set [''G204'', ''G101'', ''G204'']
   \<and> NewRuleFilter False [''G101'', ''G204''] = NewRuleFilter False [''G204'', ''G101'', ''G204'']"
  using NewRuleFilter_semantics [of True "[''G101'', ''G204'']" "''G204''" "[''G204'', ''G101'', ''G204'']"]
        NewRuleFilter_semantics [of True "[''G101'', ''G204'']" "''G301''" "[''G204'', ''G101'', ''G204'']"]
        NewRuleFilter_semantics [of False "[''G101'', ''G204'']" "''G204''" "[''G204'', ''G101'', ''G204'']"]
        NewRuleFilter_semantics [of False "[''G101'', ''G204'']" "''G301''" "[''G204'', ''G101'', ''G204'']"]
  by auto

subsection \<open>The two loops of Generate\<close>

text \<open>
  The inner loop sets the flag of the rule when some filter matches it, and runs to
  its end unless a filter matches while suppressions are not tracked.
\<close>

lemma apply_filters_eq:
  "apply_filters t k fs sm =
     ((if list_ex (\<lambda>f. f k) fs then sm(k \<mapsto> True) else sm), t \<or> \<not> list_ex (\<lambda>f. f k) fs)"
  by (induction fs arbitrary: sm) (auto simp: Let_def)

lemma rule_step_eq:
  "rule_step t fs r (rm, sm) =
     ((if t \<or> \<not> list_ex (\<lambda>f. f (ID r)) fs then rm(ID r \<mapsto> r) else rm),
      sm(ID r \<mapsto> list_ex (\<lambda>f. f (ID r)) fs))"
  by (auto simp: rule_step_def apply_filters_eq)

lemma fold_rule_step_snd:
  "snd (fold (rule_step t fs) rs (rm, sm)) k =
     (if k \<in> ID ` set rs then Some (list_ex (\<lambda>f. f k) fs) else sm k)"
proof (induction rs arbitrary: rm sm)
  case Nil
  show ?case by simp
next
  case (Cons r rs)
  show ?case
    by (simp add: rule_step_eq Cons.IH)
qed

lemma find_ID_None: "k \<notin> ID ` set rs \<Longrightarrow> find (\<lambda>r. ID r = k) rs = None"
  by (auto simp: find_None_iff)

lemma fold_rule_step_fst:
  "distinct (map ID rs) \<Longrightarrow>
   fst (fold (rule_step t fs) rs (rm, sm)) k =
     (if t \<or> \<not> list_ex (\<lambda>f. f k) fs
      then (case find (\<lambda>r. ID r = k) rs of Some r \<Rightarrow> Some r | None \<Rightarrow> rm k)
      else rm k)"
proof (induction rs arbitrary: rm sm)
  case Nil
  show ?case by simp
next
  case (Cons r rs)
  from Cons.prems have d: "distinct (map ID rs)" and n: "ID r \<notin> ID ` set rs" by auto
  show ?case
    using n by (auto simp: rule_step_eq Cons.IH [OF d] find_ID_None split: option.splits)
qed

subsection \<open>The catalogue\<close>

lemma distinct_catalog_ids: "distinct catalog_ids"
  by (simp add: catalog_ids_def rules_def)

lemma length_catalog_ids: "length catalog_ids = 37"
  by (simp add: catalog_ids_def rules_def)

lemma G101_in_catalog: "''G101'' \<in> set catalog_ids"
  by (simp add: catalog_ids_def rules_def)

lemma G102_in_catalog: "''G102'' \<in> set catalog_ids"
  by (simp add: catalog_ids_def rules_def)

lemma catalog_entry_Some: "catalog_entry k = Some d \<Longrightarrow> ID d = k \<and> d \<in> set rules"
  by (auto simp: catalog_entry_def find_Some_iff in_set_conv_nth)

lemma catalog_entry_dom: "catalog_entry k \<noteq> None \<longleftrightarrow> k \<in> set catalog_ids"
  by (auto simp: catalog_entry_def catalog_ids_def find_None_iff)

lemma catalog_entry_None: "k \<notin> set catalog_ids \<Longrightarrow> catalog_entry k = None"
  using catalog_entry_dom [of k] by simp

subsection \<open>What Generate returns\<close>

lemma Generate_Rules_fold:
  "Rules (Generate t fs) = fst (fold (rule_step t fs) rules (Map.empty, Map.empty))"
  by (simp add: Generate_def split: prod.splits)

lemma Generate_RuleSuppressed_fold:
  "RuleSuppressed (Generate t fs) = snd (fold (rule_step t fs) rules (Map.empty, Map.empty))"
  by (simp add: Generate_def split: prod.splits)

lemma Generate_RuleSuppressed:
  "RuleSuppressed (Generate t fs) k =
     (if k \<in> set catalog_ids then Some (list_ex (\<lambda>f. f k) fs) else None)"
  by (simp add: Generate_RuleSuppressed_fold fold_rule_step_snd catalog_ids_def)

lemma Generate_Rules:
  "Rules (Generate t fs) k =
     (if t \<or> \<not> list_ex (\<lambda>f. f k) fs then catalog_entry k else None)"
  using distinct_catalog_ids
  by (simp add: Generate_Rules_fold fold_rule_step_fst catalog_ids_def
        catalog_entry_def split: option.splits)

lemma dom_Generate_RuleSuppressed: "dom (RuleSuppressed (Generate t fs)) = set catalog_ids"
  by (auto simp: dom_def Generate_RuleSuppressed)

lemma dom_Generate_Rules:
  "dom (Rules (Generate t fs)) = {k \<in> set catalog_ids. t \<or> \<not> list_ex (\<lambda>f. f k) fs}"
  using catalog_entry_dom by (auto simp: dom_def Generate_Rules)

lemma RuleList_eqI:
  "(\<And>k. Rules a k = Rules b k) \<Longrightarrow> (\<And>k. RuleSuppressed a k = RuleSuppressed b k) \<Longrightarrow>
   (a::RuleList) = b"
  by (cases a, cases b) (simp add: fun_eq_iff)

lemma Generate_cong_on_catalog:
  assumes "\<And>k. k \<in> set catalog_ids \<Longrightarrow> list_ex (\<lambda>f. f k) fs = list_ex (\<lambda>f. f k) fs'"
  shows "Generate t fs = Generate t fs'"
proof (rule RuleList_eqI)
  fix k
  show "Rules (Generate t fs) k = Rules (Generate t fs') k"
    using assms [of k]
    by (cases "k \<in> set catalog_ids") (simp_all add: Generate_Rules catalog_entry_None)
  show "RuleSuppressed (Generate t fs) k = RuleSuppressed (Generate t fs') k"
    using assms [of k] by (simp add: Generate_RuleSuppressed)
qed

text \<open>
  Claim C1. Without tracking, a catalogue rule that at least one filter matches is not
  a key of \<open>Rules\<close>; with tracking, every catalogue rule is a key of \<open>Rules\<close>,
  matched or not. In particular \<open>Generate True [NewRuleFilter True [''G101'']]\<close> has
  \<open>''G101''\<close> among the keys of \<open>Rules\<close> while \<open>RuleSuppressed\<close> holds \<open>True\<close> for it.
\<close>

theorem Generate_active_set_policy:
  "(\<forall>k \<in> set catalog_ids. (\<exists>f \<in> set fs. f k) \<longrightarrow> k \<notin> dom (Rules (Generate False fs)))
   \<and> (\<forall>k \<in> set catalog_ids. k \<in> dom (Rules (Generate True fs)))
   \<and> ''G101'' \<in> dom (Rules (Generate True [NewRuleFilter True [''G101'']]))
   \<and> RuleSuppressed (Generate True [NewRuleFilter True [''G101'']]) ''G101'' = Some True"
  using G101_in_catalog
  by (simp add: dom_Generate_Rules Generate_RuleSuppressed list_ex_iff NewRuleFilter_apply)

theorem Generate_active_set_policy_witness:
  "''G102'' \<in> set catalog_ids
   \<and> (\<exists>f \<in> set [NewRuleFilter False [''G101'']]. f ''G102'')
   \<and> ''G102'' \<notin> dom (Rules (Generate False [NewRuleFilter False [''G101'']]))
   \<and> ''G102'' \<in> dom (Rules (Generate True [NewRuleFilter False [''G101'']]))"
  using Generate_active_set_policy [of "[NewRuleFilter False [''G101'']]"] G102_in_catalog
  by (simp add: NewRuleFilter_apply)

text \<open>
  Claim C3. \<open>Generate False [NewRuleFilter True [''G101'']]\<close>: \<open>''G101''\<close> is not a key of
  \<open>Rules\<close>, its suppression flag is \<open>True\<close>, and every other catalogue ID is a key of
  \<open>Rules\<close> with the flag \<open>False\<close>.
\<close>

theorem Generate_exclude_G101:
  "''G101'' \<notin> dom (Rules (Generate False [NewRuleFilter True [''G101'']]))
   \<and> RuleSuppressed (Generate False [NewRuleFilter True [''G101'']]) ''G101'' = Some True
   \<and> (\<forall>k \<in> set catalog_ids. k \<noteq> ''G101'' \<longrightarrow>
         k \<in> dom (Rules (Generate False [NewRuleFilter True [''G101'']]))
         \<and> RuleSuppressed (Generate False [NewRuleFilter True [''G101'']]) k = Some False)"
  using G101_in_catalog
  by (simp add: dom_Generate_Rules Generate_RuleSuppressed NewRuleFilter_apply)

theorem Generate_exclude_G101_witness:
  "''G102'' \<in> set catalog_ids \<and> ''G102'' \<noteq> ''G101''
   \<and> ''G102'' \<in> dom (Rules (Generate False [NewRuleFilter True [''G101'']]))
   \<and> RuleSuppressed (Generate False [NewRuleFilter True [''G101'']]) ''G102'' = Some False"
  using Generate_exclude_G101 G102_in_catalog by simp

text \<open>
  Claim C4. \<open>Generate False [NewRuleFilter False [''G101'']]\<close>: the key set of \<open>Rules\<close>
  is exactly \<open>{''G101''}\<close>, the suppression flag is \<open>True\<close> for every catalogue ID
  other than \<open>''G101''\<close> and \<open>False\<close> for \<open>''G101''\<close>.
\<close>

theorem Generate_include_only_G101:
  "dom (Rules (Generate False [NewRuleFilter False [''G101'']])) = {''G101''}
   \<and> (\<forall>k \<in> set catalog_ids. k \<noteq> ''G101'' \<longrightarrow>
         RuleSuppressed (Generate False [NewRuleFilter False [''G101'']]) k = Some True)
   \<and> RuleSuppressed (Generate False [NewRuleFilter False [''G101'']]) ''G101'' = Some False"
  using G101_in_catalog
  by (auto simp: dom_Generate_Rules Generate_RuleSuppressed NewRuleFilter_apply)

theorem Generate_include_only_G101_witness:
  "''G102'' \<in> set catalog_ids \<and> ''G102'' \<noteq> ''G101''
   \<and> RuleSuppressed (Generate False [NewRuleFilter False [''G101'']]) ''G102'' = Some True"
  using Generate_include_only_G101 G102_in_catalog by simp

text \<open>
  The catalogue of \<^verbatim>\<open>Generate\<close> has 37 entries, so the suppression map of a call
  without filters does not have 33 keys.
\<close>

theorem RuleSuppressed_33_counterexample:
  "card (dom (RuleSuppressed (Generate False []))) \<noteq> 33"
  using distinct_catalog_ids length_catalog_ids
  by (simp add: dom_Generate_RuleSuppressed distinct_card)

text \<open>
  Claim C5, amended. For every tracking flag and every sequence of filters, the key
  set of \<open>RuleSuppressed\<close> is the set of the catalogue IDs, no more and no fewer; the
  catalogue lists 37 pairwise distinct IDs, so the map has exactly 37 entries.
\<close>

theorem RuleSuppressed_total_on_catalog:
  "dom (RuleSuppressed (Generate t fs)) = set catalog_ids
   \<and> distinct catalog_ids
   \<and> length catalog_ids = 37
   \<and> card (dom (RuleSuppressed (Generate t fs))) = 37"
  using distinct_catalog_ids length_catalog_ids
  by (simp add: dom_Generate_RuleSuppressed distinct_card)

text \<open>
  Claim C6. The suppression map does not depend on the order of the filters:
  \<open>[A, B]\<close> and \<open>[B, A]\<close> give the same map, as do any two sequences with the same
  filters. For a catalogue ID the flag is \<open>True\<close> exactly when at least one filter
  returns true on it, and \<open>False\<close> exactly when none does, with tracking on or off.
\<close>

theorem RuleSuppressed_order_independent:
  "RuleSuppressed (Generate t [A, B]) = RuleSuppressed (Generate t [B, A])
   \<and> (set fs = set fs' \<longrightarrow> RuleSuppressed (Generate t fs) = RuleSuppressed (Generate t fs'))
   \<and> (\<forall>k \<in> set catalog_ids.
         RuleSuppressed (Generate t fs) k = Some True \<longleftrightarrow> (\<exists>f \<in> set fs. f k))
   \<and> (\<forall>k \<in> set catalog_ids.
         RuleSuppressed (Generate t fs) k = Some False \<longleftrightarrow> \<not> (\<exists>f \<in> set fs. f k))"
  by (auto simp: fun_eq_iff Generate_RuleSuppressed list_ex_iff)

theorem RuleSuppressed_order_independent_witness:
  "RuleSuppressed (Generate False [NewRuleFilter True [''G101''], NewRuleFilter False [''G101'', ''G102'']])
     = RuleSuppressed (Generate False [NewRuleFilter False [''G101'', ''G102''], NewRuleFilter True [''G101'']])
   \<and> ''G101'' \<in> set catalog_ids
   \<and> (\<exists>f \<in> set [NewRuleFilter True [''G101''], NewRuleFilter False [''G101'', ''G102'']]. f ''G101'')
   \<and> RuleSuppressed (Generate False [NewRuleFilter True [''G101''], NewRuleFilter False [''G101'', ''G102'']]) ''G101''
       = Some True
   \<and> ''G102'' \<in> set catalog_ids
   \<and> \<not> (\<exists>f \<in> set [NewRuleFilter True [''G101''], NewRuleFilter False [''G101'', ''G102'']]. f ''G102'')
   \<and> RuleSuppressed (Generate False [NewRuleFilter True [''G101''], NewRuleFilter False [''G101'', ''G102'']]) ''G102''
       = Some False"
  using RuleSuppressed_order_independent
          [of False "NewRuleFilter True [''G101'']" "NewRuleFilter False [''G101'', ''G102'']"
              "[NewRuleFilter True [''G101''], NewRuleFilter False [''G101'', ''G102'']]"
              "[NewRuleFilter True [''G101''], NewRuleFilter False [''G101'', ''G102'']]"]
        G101_in_catalog G102_in_catalog
  by (auto simp: NewRuleFilter_apply)

subsection \<open>RulesInfo\<close>

lemma RulesInfo_fold_lookup:
  "\<forall>k \<in> set ks. map_option ID (m k) = Some k \<Longrightarrow>
   fold (\<lambda>k builders. case m k of Some def \<Rightarrow> builders(ID def \<mapsto> Create def)
                                  | None \<Rightarrow> builders) ks b0 x =
     (if x \<in> set ks then map_option Create (m x) else b0 x)"
proof (induction ks arbitrary: b0)
  case Nil
  show ?case by simp
next
  case (Cons k ks)
  from Cons.prems have tl: "\<forall>k \<in> set ks. map_option ID (m k) = Some k"
    and hd: "map_option ID (m k) = Some k" by auto
  from hd obtain d where d: "m k = Some d" "ID d = k" by auto
  show ?case
    using d by (auto simp: Cons.IH [OF tl])
qed

lemma RulesInfo_fst_lookup:
  assumes "range_order ks (Rules rl)"
    and "\<forall>k \<in> dom (Rules rl). map_option ID (Rules rl k) = Some k"
  shows "fst (RulesInfo ks rl) k = map_option Create (Rules rl k)"
proof -
  from assms have ks: "set ks = dom (Rules rl)"
    and keyed: "\<forall>k \<in> set ks. map_option ID (Rules rl k) = Some k"
    by (auto simp: range_order_def)
  show ?thesis
    using ks by (auto simp: RulesInfo_def RulesInfo_fold_lookup [OF keyed] dom_def)
qed

lemma RulesInfo_snd: "snd (RulesInfo ks rl) = RuleSuppressed rl"
  by (simp add: RulesInfo_def)

lemma Generate_Rules_keyed:
  "\<forall>k \<in> dom (Rules (Generate t fs)). map_option ID (Rules (Generate t fs) k) = Some k"
  by (auto simp: Generate_Rules dest: catalog_entry_Some split: if_splits)

text \<open>
  On the lists that \<^verbatim>\<open>Generate\<close> returns, whatever the order of the iteration, the
  builder map has the keys of \<open>Rules\<close>, each with the builder of its definition.
\<close>

lemma RulesInfo_Generate:
  assumes "range_order ks (Rules (Generate t fs))"
  shows "fst (RulesInfo ks (Generate t fs)) = map_option Create \<circ> Rules (Generate t fs)"
    and "dom (fst (RulesInfo ks (Generate t fs))) = dom (Rules (Generate t fs))"
proof -
  have look: "fst (RulesInfo ks (Generate t fs)) k = map_option Create (Rules (Generate t fs) k)" for k
    by (rule RulesInfo_fst_lookup [OF assms Generate_Rules_keyed])
  show "fst (RulesInfo ks (Generate t fs)) = map_option Create \<circ> Rules (Generate t fs)"
    by (simp add: fun_eq_iff look)
  show "dom (fst (RulesInfo ks (Generate t fs))) = dom (Rules (Generate t fs))"
    by (auto simp: dom_def look)
qed

text \<open>
  \<^verbatim>\<open>RulesInfo\<close> stores each builder under \<^verbatim>\<open>def.ID\<close>, the ID field of the stored
  definition, not under the key of the entry. In a \<^verbatim>\<open>RuleList\<close> whose only entry
  has the key \<open>''a''\<close> and a definition with the ID \<open>''b''\<close>, the builder map has the
  key \<open>''b''\<close> and \<open>Rules\<close> the key \<open>''a''\<close>.
\<close>

theorem RulesInfo_key_set_counterexample:
  "range_order [''a'']
     (Rules \<lparr>Rules = [''a'' \<mapsto> \<lparr>ID = ''b'', Description = [], Create = NewUsingUnsafe\<rparr>],
             RuleSuppressed = Map.empty\<rparr>)
   \<and> dom (fst (RulesInfo [''a'']
        \<lparr>Rules = [''a'' \<mapsto> \<lparr>ID = ''b'', Description = [], Create = NewUsingUnsafe\<rparr>],
         RuleSuppressed = Map.empty\<rparr>))
     \<noteq> dom (Rules \<lparr>Rules = [''a'' \<mapsto> \<lparr>ID = ''b'', Description = [], Create = NewUsingUnsafe\<rparr>],
                    RuleSuppressed = Map.empty\<rparr>)"
  by (simp add: range_order_def RulesInfo_def)

text \<open>
  Claim C7, amended. For every \<^verbatim>\<open>RuleList\<close> in which every key \<open>k\<close> of \<open>Rules\<close>
  holds a definition whose ID is \<open>k\<close>, and for every order in which the keys are
  visited, the first map returned by \<^verbatim>\<open>RulesInfo\<close> has the key set of \<open>Rules\<close> and
  holds under each key the builder of that definition; the second map is
  \<open>RuleSuppressed\<close> unchanged. The function is total and returns nothing else.
\<close>

theorem RulesInfo_projection:
  assumes "range_order ks (Rules rl)"
    and "\<forall>k \<in> dom (Rules rl). map_option ID (Rules rl k) = Some k"
  shows "dom (fst (RulesInfo ks rl)) = dom (Rules rl)
         \<and> (\<forall>k. fst (RulesInfo ks rl) k = map_option Create (Rules rl k))
         \<and> snd (RulesInfo ks rl) = RuleSuppressed rl"
proof -
  have look: "fst (RulesInfo ks rl) k = map_option Create (Rules rl k)" for k
    by (rule RulesInfo_fst_lookup [OF assms])
  have "dom (fst (RulesInfo ks rl)) = dom (Rules rl)"
    by (auto simp: dom_def look)
  then show ?thesis
    by (simp add: look RulesInfo_snd)
qed

theorem RulesInfo_projection_witness:
  "range_order [''G204'', ''G101'']
     (Rules \<lparr>Rules = [''G101'' \<mapsto> \<lparr>ID = ''G101'', Description = ''x'', Create = NewHardcodedCredentials\<rparr>,
                      ''G204'' \<mapsto> \<lparr>ID = ''G204'', Description = ''y'', Create = NewSubproc\<rparr>],
             RuleSuppressed = [''G101'' \<mapsto> False, ''G204'' \<mapsto> True, ''G301'' \<mapsto> True]\<rparr>)
   \<and> dom (fst (RulesInfo [''G204'', ''G101'']
        \<lparr>Rules = [''G101'' \<mapsto> \<lparr>ID = ''G101'', Description = ''x'', Create = NewHardcodedCredentials\<rparr>,
                  ''G204'' \<mapsto> \<lparr>ID = ''G204'', Description = ''y'', Create = NewSubproc\<rparr>],
         RuleSuppressed = [''G101'' \<mapsto> False, ''G204'' \<mapsto> True, ''G301'' \<mapsto> True]\<rparr>))
       = {''G101'', ''G204''}
   \<and> fst (RulesInfo [''G204'', ''G101'']
        \<lparr>Rules = [''G101'' \<mapsto> \<lparr>ID = ''G101'', Description = ''x'', Create = NewHardcodedCredentials\<rparr>,
                  ''G204'' \<mapsto> \<lparr>ID = ''G204'', Description = ''y'', Create = NewSubproc\<rparr>],
         RuleSuppressed = [''G101'' \<mapsto> False, ''G204'' \<mapsto> True, ''G301'' \<mapsto> True]\<rparr>) ''G204''
       = Some NewSubproc
   \<and> snd (RulesInfo [''G204'', ''G101'']
        \<lparr>Rules = [''G101'' \<mapsto> \<lparr>ID = ''G101'', Description = ''x'', Create = NewHardcodedCredentials\<rparr>,
                  ''G204'' \<mapsto> \<lparr>ID = ''G204'', Description = ''y'', Create = NewSubproc\<rparr>],
         RuleSuppressed = [''G101'' \<mapsto> False, ''G204'' \<mapsto> True, ''G301'' \<mapsto> True]\<rparr>)
       = [''G101'' \<mapsto> False, ''G204'' \<mapsto> True, ''G301'' \<mapsto> True]"
proof -
  let ?rl = "\<lparr>Rules = [''G101'' \<mapsto> \<lparr>ID = ''G101'', Description = ''x'', Create = NewHardcodedCredentials\<rparr>,
                      ''G204'' \<mapsto> \<lparr>ID = ''G204'', Description = ''y'', Create = NewSubproc\<rparr>],
             RuleSuppressed = [''G101'' \<mapsto> False, ''G204'' \<mapsto> True, ''G301'' \<mapsto> True]\<rparr>"
  have o: "range_order [''G204'', ''G101''] (Rules ?rl)"
    by (auto simp: range_order_def)
  have k: "\<forall>k \<in> dom (Rules ?rl). map_option ID (Rules ?rl k) = Some k"
    by simp
  from RulesInfo_projection [OF o k] o show ?thesis
    by auto
qed

subsection \<open>Unknown IDs, keys and the active set\<close>

text \<open>
  Claim C8. Let \<open>u\<close> be a string that is not a catalogue ID, and let the ID sets of
  two filters built by \<^verbatim>\<open>NewRuleFilter\<close> with the same action differ by \<open>u\<close> alone
  (\<open>u\<close> added or \<open>u\<close> removed). Then \<^verbatim>\<open>Generate\<close> returns the same \<^verbatim>\<open>RuleList\<close> for
  both, whatever filters stand before and after: the same \<open>Rules\<close>, hence the same
  key set and the same entry for every catalogue ID, and the same \<open>RuleSuppressed\<close>.
\<close>

theorem unknown_id_inert:
  assumes "u \<notin> set catalog_ids"
    and "set ids' = insert u (set ids) \<or> set ids' = set ids - {u}"
  shows "Generate t (pre @ NewRuleFilter a ids' # post) = Generate t (pre @ NewRuleFilter a ids # post)
         \<and> dom (Rules (Generate t [NewRuleFilter a ids'])) = dom (Rules (Generate t [NewRuleFilter a ids]))
         \<and> RuleSuppressed (Generate t [NewRuleFilter a ids']) = RuleSuppressed (Generate t [NewRuleFilter a ids])"
proof -
  have same: "NewRuleFilter a ids' k = NewRuleFilter a ids k" if "k \<in> set catalog_ids" for k
  proof -
    from that assms(1) have "k \<noteq> u" by auto
    with assms(2) have "k \<in> set ids' \<longleftrightarrow> k \<in> set ids" by auto
    then show ?thesis by (simp add: NewRuleFilter_apply)
  qed
  have "Generate t (xs @ NewRuleFilter a ids' # ys) = Generate t (xs @ NewRuleFilter a ids # ys)" for xs ys
    by (rule Generate_cong_on_catalog) (simp add: same)
  from this [of pre post] this [of "[]" "[]"] show ?thesis by simp
qed

theorem unknown_id_inert_witness:
  "''G999'' \<notin> set catalog_ids
   \<and> set [''G999'', ''G101''] = insert ''G999'' (set [''G101''])
   \<and> set [''G101''] = set [''G999'', ''G101''] - {''G999''}
   \<and> Generate False [NewRuleFilter True [''G999'', ''G101'']] = Generate False [NewRuleFilter True [''G101'']]
   \<and> Generate False [NewRuleFilter True [''G101'']] = Generate False [NewRuleFilter True [''G999'', ''G101'']]"
proof -
  have u: "''G999'' \<notin> set catalog_ids"
    by (simp add: catalog_ids_def rules_def)
  have add: "set [''G999'', ''G101''] = insert ''G999'' (set [''G101''])
             \<or> set [''G999'', ''G101''] = set [''G101''] - {''G999''}"
    by simp
  have del: "set [''G101''] = insert ''G999'' (set [''G999'', ''G101''])
             \<or> set [''G101''] = set [''G999'', ''G101''] - {''G999''}"
    by simp
  from unknown_id_inert [OF u add, of False "[]" True "[]"]
       unknown_id_inert [OF u del, of False "[]" True "[]"] u
  show ?thesis by simp
qed

text \<open>
  Claim C9. In every \<^verbatim>\<open>RuleList\<close> returned by \<^verbatim>\<open>Generate\<close>, the definition stored
  under a key \<open>k\<close> of \<open>Rules\<close> has the ID \<open>k\<close> and is the catalogue entry for \<open>k\<close>, so
  its description and its builder are those of the catalogue; and every key of
  \<open>Rules\<close> is a key of \<open>RuleSuppressed\<close>.
\<close>

theorem Generate_self_keyed:
  "(\<forall>k d. Rules (Generate t fs) k = Some d \<longrightarrow>
      ID d = k \<and> d \<in> set rules \<and> catalog_entry k = Some d
      \<and> (\<forall>c. catalog_entry k = Some c \<longrightarrow> Description d = Description c \<and> Create d = Create c))
   \<and> dom (Rules (Generate t fs)) \<subseteq> dom (RuleSuppressed (Generate t fs))"
  by (auto simp: Generate_Rules dom_Generate_RuleSuppressed dom_Generate_Rules
           dest: catalog_entry_Some split: if_splits)

theorem Generate_self_keyed_witness:
  "Rules (Generate True [NewRuleFilter True [''G101'']]) ''G101''
     = Some \<lparr>ID = ''G101'', Description = ''Look for hardcoded credentials'', Create = NewHardcodedCredentials\<rparr>
   \<and> catalog_entry ''G101''
     = Some \<lparr>ID = ''G101'', Description = ''Look for hardcoded credentials'', Create = NewHardcodedCredentials\<rparr>
   \<and> ''G101'' \<in> dom (RuleSuppressed (Generate True [NewRuleFilter True [''G101'']]))"
proof -
  have e: "catalog_entry ''G101''
     = Some \<lparr>ID = ''G101'', Description = ''Look for hardcoded credentials'', Create = NewHardcodedCredentials\<rparr>"
    by (simp add: catalog_entry_def rules_def)
  have r: "Rules (Generate True [NewRuleFilter True [''G101'']]) ''G101''
     = Some \<lparr>ID = ''G101'', Description = ''Look for hardcoded credentials'', Create = NewHardcodedCredentials\<rparr>"
    by (simp add: Generate_Rules e)
  from Generate_self_keyed [of True "[NewRuleFilter True [''G101'']]"] r e show ?thesis
    by auto
qed

text \<open>
  Claim C10. Without tracking, a catalogue ID is a key of \<open>Rules\<close> exactly when its
  suppression flag is \<open>False\<close>: the active set is the set of the unsuppressed
  catalogue IDs.
\<close>

theorem untracked_active_iff_unsuppressed:
  "(\<forall>k \<in> set catalog_ids.
      k \<in> dom (Rules (Generate False fs)) \<longleftrightarrow> RuleSuppressed (Generate False fs) k = Some False)
   \<and> dom (Rules (Generate False fs))
       = {k \<in> set catalog_ids. RuleSuppressed (Generate False fs) k = Some False}"
  by (auto simp: dom_Generate_Rules Generate_RuleSuppressed)

theorem untracked_active_iff_unsuppressed_witness:
  "''G101'' \<in> set catalog_ids
   \<and> ''G101'' \<notin> dom (Rules (Generate False [NewRuleFilter True [''G101'']]))
   \<and> RuleSuppressed (Generate False [NewRuleFilter True [''G101'']]) ''G101'' \<noteq> Some False
   \<and> ''G102'' \<in> set catalog_ids
   \<and> ''G102'' \<in> dom (Rules (Generate False [NewRuleFilter True [''G101'']]))
   \<and> RuleSuppressed (Generate False [NewRuleFilter True [''G101'']]) ''G102'' = Some False"
proof -
  have s1: "RuleSuppressed (Generate False [NewRuleFilter True [''G101'']]) ''G101'' = Some True"
    using G101_in_catalog by (simp add: Generate_RuleSuppressed NewRuleFilter_apply)
  have s2: "RuleSuppressed (Generate False [NewRuleFilter True [''G101'']]) ''G102'' = Some False"
    using G102_in_catalog by (simp add: Generate_RuleSuppressed NewRuleFilter_apply)
  from untracked_active_iff_unsuppressed [of "[NewRuleFilter True [''G101'']]"]
       s1 s2 G101_in_catalog G102_in_catalog
  show ?thesis by auto
qed

end
